theory Spec2Isabelle
  imports Main "HOL-Library.Word"
begin

section \<open>JavaScript values\<close>

text \<open>
  A JavaScript string is a sequence of UTF-16 code units, and \<open>s.length\<close> counts code
  units. The source literal \<open>'\<dots> '\<close> of \<open>NAME_REQUIRED_PREFIX\<close> is the code point
  U+2601 (one code unit, bytes E2 98 81 in the UTF-8 source file) followed by a space.
\<close>

type_synonym jsstring = "16 word list"

text \<open>The code units of a Basic Latin literal, for writing test inputs.\<close>

definition utf16 :: "string \<Rightarrow> jsstring" where
  "utf16 s = map (\<lambda>c. of_nat (of_char c)) s"

text \<open>
  Numbers are IEEE doubles; only their truthiness can matter here, so a number is
  \<open>NaN\<close>, an infinity with its sign, or sign, significand and exponent (zero is the
  significand 0, with either sign).
\<close>

datatype jsnumber = NaN | Infinity bool | Finite bool nat int

text \<open>
  Every kind of value the language has. Objects, arrays and functions live on the heap
  and a value holds the reference: two of them are the same value iff the references
  are equal.
\<close>

datatype jsval =
    JSUndefined
  | JSNull
  | JSBoolean bool
  | JSNumber jsnumber
  | JSBigInt int
  | JSString jsstring
  | JSSymbol nat
  | JSFunction nat
  | JSObject nat
  | JSArray nat

text \<open>The \<open>typeof\<close> operator: \<open>null\<close> and arrays report \<open>'object'\<close>.\<close>

fun typeof :: "jsval \<Rightarrow> string" where
  "typeof JSUndefined = ''undefined''"
| "typeof JSNull = ''object''"
| "typeof (JSBoolean b) = ''boolean''"
| "typeof (JSNumber n) = ''number''"
| "typeof (JSBigInt i) = ''bigint''"
| "typeof (JSString s) = ''string''"
| "typeof (JSSymbol r) = ''symbol''"
| "typeof (JSFunction r) = ''function''"
| "typeof (JSObject r) = ''object''"
| "typeof (JSArray r) = ''object''"

text \<open>
  The conversion behind \<open>!!x\<close>: the falsy values are \<open>undefined\<close>, \<open>null\<close>, \<open>false\<close>,
  \<open>+0\<close>, \<open>-0\<close>, \<open>NaN\<close>, \<open>0n\<close> and the empty string.
\<close>

fun ToBoolean :: "jsval \<Rightarrow> bool" where
  "ToBoolean JSUndefined = False"
| "ToBoolean JSNull = False"
| "ToBoolean (JSBoolean b) = b"
| "ToBoolean (JSNumber NaN) = False"
| "ToBoolean (JSNumber (Infinity s)) = True"
| "ToBoolean (JSNumber (Finite s m e)) = (m \<noteq> 0)"
| "ToBoolean (JSBigInt i) = (i \<noteq> 0)"
| "ToBoolean (JSString s) = (s \<noteq> [])"
| "ToBoolean (JSSymbol r) = True"
| "ToBoolean (JSFunction r) = True"
| "ToBoolean (JSObject r) = True"
| "ToBoolean (JSArray r) = True"

section \<open>checkers.js\<close>

text \<open>\<^verbatim>\<open>return !!object && typeof object === 'object';\<close>\<close>

definition isValidVariableMap :: "jsval \<Rightarrow> bool" where
  "isValidVariableMap object = (ToBoolean object \<and> typeof object = ''object'')"

section \<open>Room.js: constants and validators\<close>

definition MAX_VARIABLES :: nat where
  "MAX_VARIABLES = 10"

definition MAX_VALUE_LENGTH :: nat where
  "MAX_VALUE_LENGTH = 1000"

definition MAX_NAME_LENGTH :: nat where
  "MAX_NAME_LENGTH = 100"

definition NAME_REQUIRED_PREFIX :: jsstring where
  "NAME_REQUIRED_PREFIX = [0x2601, 0x20]"

text \<open>\<open>s.startsWith(p)\<close> with the default position 0.\<close>

definition startsWith :: "jsstring \<Rightarrow> jsstring \<Rightarrow> bool" where
  "startsWith s p = (take (length p) s = p)"

text \<open>
  \<^verbatim>\<open>typeof name === 'string' && name.startsWith(NAME_REQUIRED_PREFIX) && name.length < MAX_NAME_LENGTH\<close>
  The first conjunct is the \<open>JSString\<close> case; \<open>&&\<close> stops at it for every other value.
\<close>

definition isValidVariableName :: "jsval \<Rightarrow> bool" where
  "isValidVariableName name =
     (case name of
        JSString s \<Rightarrow> startsWith s NAME_REQUIRED_PREFIX \<and> length s < MAX_NAME_LENGTH
      | _ \<Rightarrow> False)"

text \<open>\<^verbatim>\<open>typeof value === 'string' && value.length < MAX_VALUE_LENGTH\<close>\<close>

definition isValidValue :: "jsval \<Rightarrow> bool" where
  "isValidValue v =
     (case v of
        JSString s \<Rightarrow> length s < MAX_VALUE_LENGTH
      | _ \<Rightarrow> False)"

section \<open>The built-in containers the Room uses\<close>

text \<open>
  A \<open>Map\<close> keeps its entries in insertion order, one entry for each key. It is the list
  of its entries. \<open>Map.prototype.set\<close> replaces the value in place when the key is there
  and appends a new entry otherwise.
\<close>

type_synonym ('k, 'v) jsmap = "('k \<times> 'v) list"

definition Map_has :: "('k, 'v) jsmap \<Rightarrow> 'k \<Rightarrow> bool" where
  "Map_has m k = (k \<in> set (map fst m))"

definition Map_size :: "('k, 'v) jsmap \<Rightarrow> nat" where
  "Map_size m = length m"

definition Map_get :: "('k, 'v) jsmap \<Rightarrow> 'k \<Rightarrow> 'v option" where
  "Map_get m k = map_of m k"

definition Map_keys :: "('k, 'v) jsmap \<Rightarrow> 'k list" where
  "Map_keys m = map fst m"

fun Map_set :: "('k, 'v) jsmap \<Rightarrow> 'k \<Rightarrow> 'v \<Rightarrow> ('k, 'v) jsmap" where
  "Map_set [] k v = [(k, v)]"
| "Map_set ((k', v') # m) k v =
     (if k' = k then (k', v) # m else (k', v') # Map_set m k v)"

text \<open>Arrays: \<open>includes\<close>, \<open>indexOf\<close> (\<open>-1\<close> when absent), \<open>push\<close>, \<open>splice\<close>, \<open>some\<close>.\<close>

definition Array_includes :: "'a list \<Rightarrow> 'a \<Rightarrow> bool" where
  "Array_includes xs x = (x \<in> set xs)"

fun Array_indexOf :: "'a list \<Rightarrow> 'a \<Rightarrow> int" where
  "Array_indexOf [] x = - 1"
| "Array_indexOf (y # ys) x =
     (if y = x then 0
      else (let i = Array_indexOf ys x in if i = - 1 then - 1 else i + 1))"

definition Array_push :: "'a list \<Rightarrow> 'a \<Rightarrow> 'a list" where
  "Array_push xs x = xs @ [x]"

text \<open>
  \<open>xs.splice(start, deleteCount)\<close>: a negative start counts from the end, the start is
  clamped to the array and the count to what is left.
\<close>

definition Array_splice :: "'a list \<Rightarrow> int \<Rightarrow> nat \<Rightarrow> 'a list" where
  "Array_splice xs start deleteCount =
     (let len = int (length xs);
          s = (if start < 0 then max (len + start) 0 else min start len)
      in take (nat s) xs @ drop (nat s + deleteCount) xs)"

definition Array_some :: "'a list \<Rightarrow> ('a \<Rightarrow> bool) \<Rightarrow> bool" where
  "Array_some xs p = list_ex p xs"

section \<open>Room.js: the Room\<close>

text \<open>
  A client is an object of the connection layer, which the Room holds by reference and
  only reads. The heap maps a reference to the object it points to.
\<close>

type_synonym cref = nat

record Client =
  username :: jsstring

type_synonym heap = "cref \<Rightarrow> Client"

record Room =
  variables :: "(jsval, jsval) jsmap"
  clients :: "cref list"

text \<open>The constructor.\<close>

definition Room_new :: Room where
  "Room_new = \<lparr>variables = [], clients = []\<rparr>"

text \<open>
  Every failure is \<open>throw new Error(message)\<close>. A method returns how it completed and
  the Room as it stands when it completes.
\<close>

datatype error = Error string

datatype completion = Normal | Throw error

abbreviation DuplicateClient :: error where
  "DuplicateClient \<equiv> Error ''Client is already added to this Room.''"

abbreviation ClientNotFound :: error where
  "ClientNotFound \<equiv> Error ''Client does not belong to this Room''"

abbreviation InvalidName :: error where
  "InvalidName \<equiv> Error ''Invalid variable name''"

abbreviation InvalidValue :: error where
  "InvalidValue \<equiv> Error ''Invalid value''"

abbreviation VariableExists :: error where
  "VariableExists \<equiv> Error ''Variable already exists''"

abbreviation CapacityExceeded :: error where
  "CapacityExceeded \<equiv> Error ''Too many variables''"

abbreviation VariableNotFound :: error where
  "VariableNotFound \<equiv> Error ''Variable does not exist''"

definition addClient :: "Room \<Rightarrow> cref \<Rightarrow> completion \<times> Room" where
  "addClient this client =
     (if Array_includes (clients this) client
      then (Throw (Error ''Client is already added to this Room.''), this)
      else (Normal, this\<lparr>clients := Array_push (clients this) client\<rparr>))"

definition removeClient :: "Room \<Rightarrow> cref \<Rightarrow> completion \<times> Room" where
  "removeClient this client =
     (let index = Array_indexOf (clients this) client
      in if index = - 1
         then (Throw (Error ''Client does not belong to this Room''), this)
         else (Normal, this\<lparr>clients := Array_splice (clients this) index 1\<rparr>))"

definition getClients :: "Room \<Rightarrow> cref list" where
  "getClients this = clients this"

definition getAllVariables :: "Room \<Rightarrow> (jsval, jsval) jsmap" where
  "getAllVariables this = variables this"

definition createVar :: "Room \<Rightarrow> jsval \<Rightarrow> jsval \<Rightarrow> completion \<times> Room" where
  "createVar this name v =
     (if \<not> isValidVariableName name then (Throw (Error ''Invalid variable name''), this)
      else if \<not> isValidValue v then (Throw (Error ''Invalid value''), this)
      else if Map_has (variables this) name then (Throw (Error ''Variable already exists''), this)
      else if Map_size (variables this) \<ge> MAX_VARIABLES
        then (Throw (Error ''Too many variables''), this)
      else (Normal, this\<lparr>variables := Map_set (variables this) name v\<rparr>))"

text \<open>The method \<open>set\<close> of the Room (\<open>set\<close> is the set of a list in HOL).\<close>

definition set_var :: "Room \<Rightarrow> jsval \<Rightarrow> jsval \<Rightarrow> completion \<times> Room" where
  "set_var this name v =
     (if \<not> isValidVariableName name then (Throw (Error ''Invalid variable name''), this)
      else if \<not> isValidValue v then (Throw (Error ''Invalid value''), this)
      else if \<not> Map_has (variables this) name
        then (Throw (Error ''Variable does not exist''), this)
      else (Normal, this\<lparr>variables := Map_set (variables this) name v\<rparr>))"

text \<open>
  \<^verbatim>\<open>username = username.toLowerCase();
  return this.getClients().some((i) => i.username.toLowerCase() === username);\<close>
  \<open>String.prototype.toLowerCase\<close> is the Unicode lower-case mapping of the engine, whose
  tables are not part of the repository: it is the parameter \<open>toLowerCase\<close>.
\<close>

definition hasClientWithUsername ::
  "(jsstring \<Rightarrow> jsstring) \<Rightarrow> heap \<Rightarrow> Room \<Rightarrow> jsstring \<Rightarrow> bool" where
  "hasClientWithUsername toLowerCase h this uname =
     (let uname = toLowerCase uname
      in Array_some (getClients this) (\<lambda>i. toLowerCase (username (h i)) = uname))"

text \<open>
  The lower-case mapping on Basic Latin, where it moves \<open>A\<close>..\<open>Z\<close> to \<open>a\<close>..\<open>z\<close> and
  leaves every other code unit: what \<open>toLowerCase\<close> does on the strings of the examples.
\<close>

definition toLowerCase_latin :: "jsstring \<Rightarrow> jsstring" where
  "toLowerCase_latin s = map (\<lambda>u. if 0x41 \<le> u \<and> u \<le> 0x5A then u + 0x20 else u) s"

section \<open>Sequences of calls\<close>

text \<open>
  The callers of a Room catch what a method throws and go on using the Room, so a
  sequence of calls runs each call on the Room the previous one left.
\<close>

datatype op =
    AddClient cref
  | RemoveClient cref
  | CreateVar jsval jsval
  | SetVar jsval jsval

fun step :: "Room \<Rightarrow> op \<Rightarrow> completion \<times> Room" where
  "step r (AddClient c) = addClient r c"
| "step r (RemoveClient c) = removeClient r c"
| "step r (CreateVar n v) = createVar r n v"
| "step r (SetVar n v) = set_var r n v"

fun run :: "Room \<Rightarrow> op list \<Rightarrow> Room" where
  "run r [] = r"
| "run r (x # xs) = run (snd (step r x)) xs"

section \<open>The specification's readings\<close>

text \<open>
  The specification's account of \<open>createVar\<close>: the four checks are all evaluated, in
  the order name shape, value shape, non-existence, capacity, each with the error it
  stands for; the error raised is the one of the first check that failed.
\<close>

definition createVar_checks :: "Room \<Rightarrow> jsval \<Rightarrow> jsval \<Rightarrow> (bool \<times> error) list" where
  "createVar_checks this name v =
     [(isValidVariableName name, InvalidName),
      (isValidValue v, InvalidValue),
      (\<not> Map_has (variables this) name, VariableExists),
      (Map_size (variables this) < MAX_VARIABLES, CapacityExceeded)]"

definition first_failed :: "(bool \<times> error) list \<Rightarrow> error option" where
  "first_failed checks = map_option snd (find (\<lambda>c. \<not> fst c) checks)"

definition createVar_spec :: "Room \<Rightarrow> jsval \<Rightarrow> jsval \<Rightarrow> completion \<times> Room" where
  "createVar_spec this name v =
     (case first_failed (createVar_checks this name v) of
        Some e \<Rightarrow> (Throw e, this)
      | None \<Rightarrow> (Normal, this\<lparr>variables := Map_set (variables this) name v\<rparr>))"

text \<open>
  The specification's comparison of usernames: two names are the same when their
  lower-case forms are.
\<close>

definition caseInsensitiveEq :: "(jsstring \<Rightarrow> jsstring) \<Rightarrow> jsstring \<Rightarrow> jsstring \<Rightarrow> bool" where
  "caseInsensitiveEq toLowerCase a b = (toLowerCase a = toLowerCase b)"

text \<open>An entry of the variables map that both validators accept.\<close>

definition entry_ok :: "jsval \<times> jsval \<Rightarrow> bool" where
  "entry_ok p = (isValidVariableName (fst p) \<and> isValidValue (snd p))"

section \<open>Example inputs\<close>

text \<open>A variable name with the required prefix, and a string value.\<close>

definition cloud :: "string \<Rightarrow> jsval" where
  "cloud s = JSString (NAME_REQUIRED_PREFIX @ utf16 s)"

definition text_value :: "string \<Rightarrow> jsval" where
  "text_value s = JSString (utf16 s)"

text \<open>The creation of \<open>n\<close> variables with \<open>n\<close> different valid names.\<close>

definition create_n :: "nat \<Rightarrow> op list" where
  "create_n n =
     map (\<lambda>i. CreateVar (JSString (NAME_REQUIRED_PREFIX @ [of_nat i])) (JSString [])) [0..<n]"

section \<open>Facts about the containers\<close>

lemmas consts_defs = MAX_VARIABLES_def MAX_VALUE_LENGTH_def MAX_NAME_LENGTH_def
  NAME_REQUIRED_PREFIX_def

lemmas eval_defs = consts_defs utf16_def cloud_def text_value_def isValidVariableName_def
  isValidValue_def startsWith_def Map_has_def Map_size_def Map_get_def Map_keys_def
  Array_includes_def Array_push_def Array_splice_def Array_some_def Room_new_def
  addClient_def removeClient_def createVar_def set_var_def getClients_def
  getAllVariables_def

lemma length_Map_set:
  "length (Map_set m k v) = (if k \<in> set (map fst m) then length m else Suc (length m))"
  by (induction m) (auto split: if_splits)

lemma keys_Map_set:
  "map fst (Map_set m k v) = (if k \<in> set (map fst m) then map fst m else map fst m @ [k])"
  by (induction m) (force split: if_splits)+

lemma map_of_Map_set: "map_of (Map_set m k v) k = Some v"
  by (induction m) auto

lemma distinct_keys_Map_set:
  "distinct (map fst m) \<Longrightarrow> distinct (map fst (Map_set m k v))"
  by (simp add: keys_Map_set)

lemma entry_ok_Map_set:
  "list_all entry_ok m \<Longrightarrow> entry_ok (k, v) \<Longrightarrow> list_all entry_ok (Map_set m k v)"
  by (induction m) (auto simp: entry_ok_def)

lemma indexOf_append_new:
  "x \<notin> set xs \<Longrightarrow> Array_indexOf (xs @ [x]) x = int (length xs)"
  by (induction xs) (auto simp: Let_def)

lemma isValidVariableName_shape:
  "isValidVariableName n \<Longrightarrow>
     \<exists>s. n = JSString s \<and> take 2 s = [0x2601, 0x20] \<and> length s < 100"
  by (cases n) (auto simp: isValidVariableName_def startsWith_def consts_defs numeral_2_eq_2)

lemma isValidValue_shape:
  "isValidValue v \<Longrightarrow> \<exists>t. v = JSString t \<and> length t < 1000"
  by (cases v) (auto simp: isValidValue_def consts_defs)

section \<open>Invariants of a sequence of calls\<close>

lemma run_append: "run r (xs @ ys) = run (run r xs) ys"
  by (induction xs arbitrary: r) auto

lemma step_size:
  "Map_size (variables r) \<le> 10 \<Longrightarrow> Map_size (variables (snd (step r x))) \<le> 10"
  by (cases x)
     (auto simp: addClient_def removeClient_def createVar_def set_var_def Let_def
        Map_size_def Map_has_def MAX_VARIABLES_def length_Map_set)

lemma run_size:
  "Map_size (variables r) \<le> 10 \<Longrightarrow> Map_size (variables (run r xs)) \<le> 10"
  by (induction xs arbitrary: r) (auto intro: step_size)

lemma step_distinct:
  "distinct (Map_keys (variables r)) \<Longrightarrow> distinct (Map_keys (variables (snd (step r x))))"
  by (cases x)
     (auto simp: addClient_def removeClient_def createVar_def set_var_def Let_def
        Map_keys_def distinct_keys_Map_set)

lemma run_distinct:
  "distinct (Map_keys (variables r)) \<Longrightarrow> distinct (Map_keys (variables (run r xs)))"
  by (induction xs arbitrary: r) (auto intro: step_distinct)

lemma step_entries:
  "list_all entry_ok (variables r) \<Longrightarrow> list_all entry_ok (variables (snd (step r x)))"
  by (cases x)
     (auto simp: addClient_def removeClient_def createVar_def set_var_def Let_def
        entry_ok_Map_set entry_ok_def)

lemma run_entries:
  "list_all entry_ok (variables r) \<Longrightarrow> list_all entry_ok (variables (run r xs))"
  by (induction xs arbitrary: r) (auto intro: step_entries)

lemma step_keys:
  "\<exists>new. Map_keys (variables (snd (step r x))) = Map_keys (variables r) @ new"
  by (cases x)
     (auto simp: addClient_def removeClient_def createVar_def set_var_def Let_def
        Map_keys_def Map_has_def keys_Map_set)

lemma run_keys:
  "\<exists>new. Map_keys (variables (run r xs)) = Map_keys (variables r) @ new"
proof (induction xs arbitrary: r)
  case Nil
  show ?case by simp
next
  case (Cons x xs)
  obtain a where a: "Map_keys (variables (snd (step r x))) = Map_keys (variables r) @ a"
    using step_keys by blast
  obtain b where "Map_keys (variables (run (snd (step r x)) xs))
      = Map_keys (variables (snd (step r x))) @ b"
    using Cons.IH by blast
  with a show ?case by simp
qed

section \<open>The capacity of the variables map\<close>

text \<open>
  C1: after any sequence of calls to \<open>addClient\<close>, \<open>removeClient\<close>, \<open>createVar\<close> and
  \<open>set\<close> on a new Room, the variables map holds at most 10 entries. Its keys are pairwise
  different, so the number of entries is the \<open>size\<close> of the map.
\<close>

theorem variables_size_le_10:
  "Map_size (variables (run Room_new ops)) \<le> 10
   \<and> distinct (Map_keys (variables (run Room_new ops)))"
proof
  show "Map_size (variables (run Room_new ops)) \<le> 10"
    by (rule run_size) (simp add: Room_new_def Map_size_def)
  show "distinct (Map_keys (variables (run Room_new ops)))"
    by (rule run_distinct) (simp add: Room_new_def Map_keys_def)
qed

theorem variables_size_le_10_witness:
  "Map_size (variables (run Room_new (create_n 11))) \<le> 10
   \<and> Map_size (variables (run Room_new (create_n 11))) = 10"
proof -
  have "Map_size (variables (run Room_new (create_n 11))) = 10"
    by (simp add: create_n_def eval_defs upt_rec)
  with variables_size_le_10 [of "create_n 11"] show ?thesis by simp
qed

section \<open>The names and values of the variables map\<close>

text \<open>
  C2: after any sequence of calls on a new Room, every key of the variables map is a
  string that starts with the two code units of the prefix (U+2601 and a space) and has
  length below 100, and every stored value is a string of length below 1000.
\<close>

theorem variables_names_values_valid:
  assumes "(n, v) \<in> set (variables (run Room_new ops))"
  shows "\<exists>s t. n = JSString s \<and> take 2 s = [0x2601, 0x20] \<and> length s < 100
           \<and> v = JSString t \<and> length t < 1000"
proof -
  have "list_all entry_ok (variables (run Room_new ops))"
    by (rule run_entries) (simp add: Room_new_def)
  with assms have "entry_ok (n, v)"
    by (simp add: list_all_iff)
  then have "isValidVariableName n" and "isValidValue v"
    by (simp_all add: entry_ok_def)
  then show ?thesis
    using isValidVariableName_shape isValidValue_shape by blast
qed

theorem variables_names_values_valid_witness:
  "(cloud ''score'', text_value ''1'')
     \<in> set (variables (run Room_new
         [CreateVar (cloud ''score'') (text_value ''0''),
          SetVar (cloud ''score'') (text_value ''1'')]))
   \<and> (\<exists>s t. cloud ''score'' = JSString s \<and> take 2 s = [0x2601, 0x20] \<and> length s < 100
           \<and> text_value ''1'' = JSString t \<and> length t < 1000)"
proof -
  have h: "(cloud ''score'', text_value ''1'')
     \<in> set (variables (run Room_new
         [CreateVar (cloud ''score'') (text_value ''0''),
          SetVar (cloud ''score'') (text_value ''1'')]))"
    by (simp add: eval_defs)
  from variables_names_values_valid [OF h] h show ?thesis by blast
qed

section \<open>Setting a variable that does not exist\<close>

text \<open>
  C3 as stated (\<open>set\<close> of any name that is not in the map fails with the error of a
  missing variable) does not hold: the name \<open>score\<close>, without the prefix, is not in the
  map of a new Room, and \<open>set\<close> rejects it as an invalid name before it looks it up.
\<close>

theorem set_var_unknown_name_counterexample:
  "\<not> Map_has (variables Room_new) (text_value ''score'')
   \<and> set_var Room_new (text_value ''score'') (text_value ''0'') = (Throw InvalidName, Room_new)
   \<and> fst (set_var Room_new (text_value ''score'') (text_value ''0'')) \<noteq> Throw VariableNotFound"
  by (simp add: eval_defs)

text \<open>
  C3, amended: for every Room and every name that is not a key of the variables map,
  \<open>set\<close> fails and leaves the Room as it was; the error is that of an invalid name when
  the name is invalid, else that of an invalid value when the value is invalid, and that
  of a missing variable otherwise.
\<close>

theorem set_var_unknown_name:
  assumes "\<not> Map_has (variables r) n"
  shows "set_var r n v =
           (Throw (if \<not> isValidVariableName n then InvalidName
                   else if \<not> isValidValue v then InvalidValue
                   else VariableNotFound), r)"
  using assms by (simp add: set_var_def)

theorem set_var_unknown_name_witness:
  "\<not> Map_has (variables Room_new) (cloud ''score'')
   \<and> set_var Room_new (cloud ''score'') (text_value ''0'') = (Throw VariableNotFound, Room_new)"
proof -
  have h: "\<not> Map_has (variables Room_new) (cloud ''score'')"
    by (simp add: eval_defs)
  have "isValidVariableName (cloud ''score'')" "isValidValue (text_value ''0'')"
    by (simp_all add: eval_defs)
  with set_var_unknown_name [OF h, of "text_value ''0''"] h show ?thesis by simp
qed

section \<open>Failures leave the Room as it was\<close>

text \<open>
  C4: when \<open>addClient\<close>, \<open>removeClient\<close>, \<open>createVar\<close> or \<open>set\<close> throws, the Room (its
  variables map and its clients) is what it was before the call.
\<close>

theorem failure_leaves_state:
  assumes "step r x = (Throw e, r')"
  shows "r' = r"
  using assms
  by (cases x)
     (auto simp: addClient_def removeClient_def createVar_def set_var_def Let_def
        split: if_splits)

theorem failure_leaves_state_witness:
  "step (run Room_new [AddClient 1, CreateVar (cloud ''score'') (text_value ''0'')])
      (CreateVar (cloud ''score'') (text_value ''1''))
     = (Throw VariableExists,
        run Room_new [AddClient 1, CreateVar (cloud ''score'') (text_value ''0'')])"
proof -
  let ?r = "run Room_new [AddClient 1, CreateVar (cloud ''score'') (text_value ''0'')]"
  let ?x = "CreateVar (cloud ''score'') (text_value ''1'')"
  have h: "step ?r ?x = (Throw VariableExists, snd (step ?r ?x))"
    by (simp add: eval_defs)
  from failure_leaves_state [OF h] h show ?thesis by simp
qed

section \<open>The order of the checks of createVar\<close>

text \<open>
  C5: \<open>createVar\<close> does what the specification's reading does, which evaluates the four
  checks (name shape, value shape, non-existence, capacity) whatever the others give and
  raises the error of the first one that failed: the error is fixed by the precedence
  invalid name, invalid value, variable exists, too many variables.
\<close>

theorem createVar_precedence:
  "createVar this name v = createVar_spec this name v"
  by (simp add: createVar_def createVar_spec_def createVar_checks_def first_failed_def
        not_less)

theorem createVar_precedence_witness:
  "createVar Room_new (text_value ''score'') JSNull = (Throw InvalidName, Room_new)
   \<and> map fst (createVar_checks Room_new (text_value ''score'') JSNull)
       = [False, False, True, True]"
proof -
  have "createVar_spec Room_new (text_value ''score'') JSNull = (Throw InvalidName, Room_new)"
    by (simp add: createVar_spec_def createVar_checks_def first_failed_def eval_defs)
  moreover have "map fst (createVar_checks Room_new (text_value ''score'') JSNull)
       = [False, False, True, True]"
    by (simp add: createVar_checks_def eval_defs)
  ultimately show ?thesis
    using createVar_precedence [of Room_new "text_value ''score''" JSNull] by simp
qed

section \<open>Creating and then setting a variable\<close>

lemma map_of_Map_set_other: "k' \<noteq> k \<Longrightarrow> map_of (Map_set m k v) k' = map_of m k'"
  by (induction m) auto

lemma set_var_success:
  assumes "set_var r n v2 = (Normal, r2)"
  shows "Map_get (getAllVariables r2) n = Some v2
         \<and> Map_keys (getAllVariables r2) = Map_keys (getAllVariables r)
         \<and> (\<forall>k. k \<noteq> n \<longrightarrow> Map_get (getAllVariables r2) k = Map_get (getAllVariables r) k)
         \<and> clients r2 = clients r"
proof -
  from assms have has: "n \<in> set (map fst (variables r))"
    and r2: "r2 = r\<lparr>variables := Map_set (variables r) n v2\<rparr>"
    by (simp_all add: set_var_def Map_has_def split: if_splits)
  from has have "map fst (Map_set (variables r) n v2) = map fst (variables r)"
    by (simp only: keys_Map_set if_True)
  with r2 show ?thesis
    by (simp add: getAllVariables_def Map_get_def Map_keys_def map_of_Map_set
          map_of_Map_set_other)
qed

lemma createVar_success:
  assumes "createVar r n v = (Normal, r1)"
  shows "isValidVariableName n \<and> Map_has (variables r1) n"
proof -
  from assms have ok: "isValidVariableName n"
    and r1: "r1 = r\<lparr>variables := Map_set (variables r) n v\<rparr>"
    by (simp_all add: createVar_def split: if_splits)
  have "n \<in> set (map fst (Map_set (variables r) n v))"
    by (simp only: keys_Map_set) simp
  with ok r1 show ?thesis
    by (simp add: Map_has_def)
qed

lemma run_has:
  assumes "Map_has (variables r) n"
  shows "Map_has (variables (run r xs)) n"
proof -
  obtain new where "Map_keys (variables (run r xs)) = Map_keys (variables r) @ new"
    using run_keys by blast
  with assms show ?thesis by (simp add: Map_has_def Map_keys_def)
qed

text \<open>
  C6: when \<open>createVar(n, v)\<close> has succeeded, then after any further calls \<open>set(n, v2)\<close>
  with a valid value succeeds, and when it succeeds the map of \<open>getAllVariables\<close> gives
  \<open>v2\<close> at \<open>n\<close>, the keys of the map are the same and in the same order as before the
  \<open>set\<close>, wherever \<open>n\<close> stands among them, and every other name keeps its value. The
  same holds of a successful \<open>set\<close> on any Room.
\<close>

theorem createVar_then_set_var:
  assumes "createVar r n v = (Normal, r1)"
  shows "(isValidValue v2 \<longrightarrow> fst (set_var (run r1 ops) n v2) = Normal)
       \<and> (set_var (run r1 ops) n v2 = (Normal, r2) \<longrightarrow>
            Map_get (getAllVariables r2) n = Some v2
          \<and> Map_keys (getAllVariables r2) = Map_keys (getAllVariables (run r1 ops))
          \<and> (\<forall>k. k \<noteq> n \<longrightarrow>
                Map_get (getAllVariables r2) k = Map_get (getAllVariables (run r1 ops)) k))
       \<and> (set_var r' n' v' = (Normal, r'') \<longrightarrow>
            Map_get (getAllVariables r'') n' = Some v'
          \<and> Map_keys (getAllVariables r'') = Map_keys (getAllVariables r'))"
proof -
  from assms have "isValidVariableName n" and "Map_has (variables (run r1 ops)) n"
    using createVar_success run_has by blast+
  then have "isValidValue v2 \<longrightarrow> fst (set_var (run r1 ops) n v2) = Normal"
    by (simp add: set_var_def)
  then show ?thesis
    using set_var_success by blast
qed

theorem createVar_then_set_var_witness:
  "createVar \<lparr>variables = [(cloud ''a'', text_value ''x'')], clients = []\<rparr>
      (cloud ''score'') (text_value ''0'')
     = (Normal, \<lparr>variables = [(cloud ''a'', text_value ''x''), (cloud ''score'', text_value ''0'')],
                 clients = []\<rparr>)
   \<and> set_var (run \<lparr>variables = [(cloud ''a'', text_value ''x''), (cloud ''score'', text_value ''0'')],
                    clients = []\<rparr>
                [CreateVar (cloud ''lives'') (text_value ''3''), AddClient 1])
        (cloud ''score'') (text_value ''1'')
     = (Normal, \<lparr>variables = [(cloud ''a'', text_value ''x''), (cloud ''score'', text_value ''1''),
                               (cloud ''lives'', text_value ''3'')],
                 clients = [1]\<rparr>)
   \<and> Map_keys (getAllVariables
        (run \<lparr>variables = [(cloud ''a'', text_value ''x''), (cloud ''score'', text_value ''0'')],
               clients = []\<rparr>
           [CreateVar (cloud ''lives'') (text_value ''3''), AddClient 1]))
     = [cloud ''a'', cloud ''score'', cloud ''lives'']
   \<and> Map_keys (getAllVariables
        \<lparr>variables = [(cloud ''a'', text_value ''x''), (cloud ''score'', text_value ''1''),
                      (cloud ''lives'', text_value ''3'')], clients = [1]\<rparr>)
     = [cloud ''a'', cloud ''score'', cloud ''lives'']
   \<and> Map_get (getAllVariables
        \<lparr>variables = [(cloud ''a'', text_value ''x''), (cloud ''score'', text_value ''1''),
                      (cloud ''lives'', text_value ''3'')], clients = [1]\<rparr>)
        (cloud ''score'') = Some (text_value ''1'')"
proof -
  let ?r = "\<lparr>variables = [(cloud ''a'', text_value ''x'')], clients = []\<rparr>"
  let ?r1 = "\<lparr>variables = [(cloud ''a'', text_value ''x''), (cloud ''score'', text_value ''0'')],
               clients = []\<rparr>"
  let ?ops = "[CreateVar (cloud ''lives'') (text_value ''3''), AddClient 1]"
  let ?r2 = "\<lparr>variables = [(cloud ''a'', text_value ''x''), (cloud ''score'', text_value ''1''),
                             (cloud ''lives'', text_value ''3'')], clients = [1]\<rparr>"
  have a: "createVar ?r (cloud ''score'') (text_value ''0'') = (Normal, ?r1)"
    by (simp add: eval_defs)
  have b: "set_var (run ?r1 ?ops) (cloud ''score'') (text_value ''1'') = (Normal, ?r2)"
    by (simp add: eval_defs)
  have c: "Map_keys (getAllVariables (run ?r1 ?ops))
      = [cloud ''a'', cloud ''score'', cloud ''lives'']"
    by (simp add: eval_defs)
  from createVar_then_set_var [OF a, of "text_value ''1''" ?ops ?r2] b
  have "Map_get (getAllVariables ?r2) (cloud ''score'') = Some (text_value ''1'')"
    and "Map_keys (getAllVariables ?r2) = Map_keys (getAllVariables (run ?r1 ?ops))"
    by blast+
  with a b c show ?thesis by simp
qed

section \<open>Adding and then removing a client\<close>

text \<open>
  C7: for every Room and every client reference that is not a member, \<open>addClient\<close>
  succeeds and puts the client last, and \<open>removeClient\<close> of the same reference right
  after it succeeds and gives the Room back as it was, the clients in the same order.
\<close>

theorem addClient_then_removeClient:
  assumes "\<not> Array_includes (getClients r) c"
  shows "addClient r c = (Normal, r\<lparr>clients := getClients r @ [c]\<rparr>)
         \<and> removeClient (snd (addClient r c)) c = (Normal, r)"
  using assms
  by (simp add: addClient_def removeClient_def Array_includes_def Array_push_def
        Array_splice_def getClients_def indexOf_append_new Let_def)

theorem addClient_then_removeClient_witness:
  "\<not> Array_includes (getClients \<lparr>variables = [], clients = [5, 2]\<rparr>) 7
   \<and> addClient \<lparr>variables = [], clients = [5, 2]\<rparr> 7
       = (Normal, \<lparr>variables = [], clients = [5, 2, 7]\<rparr>)
   \<and> removeClient \<lparr>variables = [], clients = [5, 2, 7]\<rparr> 7
       = (Normal, \<lparr>variables = [], clients = [5, 2]\<rparr>)"
proof -
  have h: "\<not> Array_includes (getClients \<lparr>variables = [], clients = [5, 2]\<rparr>) 7"
    by (simp add: eval_defs)
  from addClient_then_removeClient [OF h] h show ?thesis
    by (auto simp: getClients_def)
qed

section \<open>Usernames are compared without case\<close>

text \<open>
  C8: \<open>hasClientWithUsername\<close> is true iff the username of some member of the Room and
  the argument have the same lower-case form, whatever the lower-case mapping of the
  engine is; and after \<open>addClient\<close> of a client whose username is \<open>Alice\<close> it is true of
  \<open>alice\<close>, given that the mapping sends \<open>Alice\<close> and \<open>alice\<close> to the same string.
\<close>

theorem hasClientWithUsername_case_insensitive:
  "hasClientWithUsername lc h r u
     = (\<exists>c \<in> set (getClients r). caseInsensitiveEq lc (username (h c)) u)
   \<and> (username (h c) = utf16 ''Alice'' \<and> lc (utf16 ''Alice'') = lc (utf16 ''alice'')
        \<longrightarrow> hasClientWithUsername lc h (snd (addClient r c)) (utf16 ''alice''))"
proof -
  have general: "hasClientWithUsername lc h r u
     = (\<exists>c \<in> set (getClients r). caseInsensitiveEq lc (username (h c)) u)" for r u
    by (simp add: hasClientWithUsername_def caseInsensitiveEq_def Array_some_def list_ex_iff
        Let_def)
  have member: "c \<in> set (getClients (snd (addClient r c)))"
    by (simp add: getClients_def addClient_def Array_includes_def Array_push_def)
  have "hasClientWithUsername lc h (snd (addClient r c)) (utf16 ''alice'')"
    if "username (h c) = utf16 ''Alice''" and "lc (utf16 ''Alice'') = lc (utf16 ''alice'')"
  proof -
    from that have "lc (username (h c)) = lc (utf16 ''alice'')"
      by simp
    with member show ?thesis
      unfolding general caseInsensitiveEq_def by (rule rev_bexI)
  qed
  with general show ?thesis by blast
qed

theorem hasClientWithUsername_case_insensitive_witness:
  "hasClientWithUsername toLowerCase_latin (\<lambda>i. \<lparr>username = utf16 ''Alice''\<rparr>)
      (snd (addClient Room_new 0)) (utf16 ''alice'')
   \<and> \<not> hasClientWithUsername toLowerCase_latin (\<lambda>i. \<lparr>username = utf16 ''Alice''\<rparr>)
      (snd (addClient Room_new 0)) (utf16 ''alice_'')"
proof -
  have "toLowerCase_latin (utf16 ''Alice'') = toLowerCase_latin (utf16 ''alice'')"
    by (simp add: toLowerCase_latin_def utf16_def)
  moreover have "\<not> hasClientWithUsername toLowerCase_latin (\<lambda>i. \<lparr>username = utf16 ''Alice''\<rparr>)
      (snd (addClient Room_new 0)) (utf16 ''alice_'')"
    by (simp add: hasClientWithUsername_def toLowerCase_latin_def eval_defs)
  ultimately show ?thesis
    using hasClientWithUsername_case_insensitive
      [of toLowerCase_latin "\<lambda>i. \<lparr>username = utf16 ''Alice''\<rparr>" Room_new "utf16 ''alice''" 0]
    by simp
qed

section \<open>Variables are never removed\<close>

text \<open>
  C9: no sequence of calls removes a variable. From any Room, the keys of the variables
  map after the calls are the keys before them, in the same order, followed by the new
  ones; a name that was a key is still one; and so it is between any two moments of a
  sequence of calls on a new Room.
\<close>

theorem variables_never_removed:
  "(\<exists>new. Map_keys (variables (run r ops)) = Map_keys (variables r) @ new)
   \<and> (Map_has (variables r) n \<longrightarrow> Map_has (variables (run r ops)) n)
   \<and> (\<exists>new. Map_keys (variables (run Room_new (before @ ops)))
          = Map_keys (variables (run Room_new before)) @ new)"
proof -
  obtain new where new: "Map_keys (variables (run r ops)) = Map_keys (variables r) @ new"
    using run_keys by blast
  then have "Map_has (variables r) n \<longrightarrow> Map_has (variables (run r ops)) n"
    by (simp add: Map_has_def Map_keys_def)
  moreover have "\<exists>new. Map_keys (variables (run Room_new (before @ ops)))
          = Map_keys (variables (run Room_new before)) @ new"
    by (simp add: run_append run_keys)
  ultimately show ?thesis using new by blast
qed

theorem variables_never_removed_witness:
  "Map_has (variables (run Room_new [CreateVar (cloud ''score'') (text_value ''0'')]))
     (cloud ''score'')
   \<and> Map_has (variables (run (run Room_new [CreateVar (cloud ''score'') (text_value ''0'')])
        [SetVar (cloud ''score'') (text_value ''1''), RemoveClient 0,
         CreateVar (cloud ''lives'') (text_value ''3'')])) (cloud ''score'')"
proof -
  have h: "Map_has (variables (run Room_new [CreateVar (cloud ''score'') (text_value ''0'')]))
     (cloud ''score'')"
    by (simp add: eval_defs)
  with variables_never_removed
     [of "run Room_new [CreateVar (cloud ''score'') (text_value ''0'')]"
         "[SetVar (cloud ''score'') (text_value ''1''), RemoveClient 0,
           CreateVar (cloud ''lives'') (text_value ''3'')]" "cloud ''score''" "[]"]
  show ?thesis by blast
qed

section \<open>The shape check of a variable map\<close>

lemma typeof_object_iff:
  "typeof x = ''object'' \<longleftrightarrow> x = JSNull \<or> (\<exists>r. x = JSObject r) \<or> (\<exists>r. x = JSArray r)"
  by (cases x) simp_all

text \<open>
  C10: \<open>isValidVariableMap x\<close> is true iff \<open>x\<close> is not \<open>null\<close> and \<open>typeof x\<close> is
  \<open>'object'\<close>; every array passes the check.
\<close>

theorem isValidVariableMap_iff_object:
  "(isValidVariableMap x \<longleftrightarrow> x \<noteq> JSNull \<and> typeof x = ''object'')
   \<and> isValidVariableMap (JSArray a) = True"
  by (cases x) (simp_all add: isValidVariableMap_def)

theorem isValidVariableMap_iff_object_witness:
  "isValidVariableMap (JSArray 0) \<and> \<not> isValidVariableMap JSNull
   \<and> \<not> isValidVariableMap (JSString (utf16 ''{}''))"
  using isValidVariableMap_iff_object [of JSNull 0]
    isValidVariableMap_iff_object [of "JSString (utf16 ''{}'')" 0]
  by simp

end
